theory Spec2Isabelle
  imports Complex_Main
begin

section \<open>Text: Python strings over the code points U+0000 .. U+00FF\<close>

text \<open>
  A Python \<open>str\<close> is a sequence of code points and \<open>len\<close> counts code points. The
  model reads a \<^typ>\<open>char\<close> as the code point of the same number, so a \<^typ>\<open>string\<close> is a
  Python string all of whose code points are below 256. The three character tests below
  are those of CPython on that range: \<open>str.isspace\<close> (used by \<open>str.strip\<close> and by
  \<open>\s\<close>), the class \<open>\w\<close> of \<open>re\<close> on \<open>str\<close> patterns (alphanumeric or underscore)
  and \<open>str.lower\<close>.
\<close>

definition is_space :: "char \<Rightarrow> bool" where
  "is_space c =
     (of_char c \<in> {9, 10, 11, 12, 13, 28, 29, 30, 31, 32, 133, 160 :: nat})"

definition is_word :: "char \<Rightarrow> bool" where
  "is_word c =
     (let n = (of_char c :: nat) in
      (48 \<le> n \<and> n \<le> 57) \<or> (65 \<le> n \<and> n \<le> 90) \<or> n = 95 \<or>
      (97 \<le> n \<and> n \<le> 122) \<or>
      n = 170 \<or> n = 178 \<or> n = 179 \<or> n = 181 \<or> n = 185 \<or> n = 186 \<or>
      (188 \<le> n \<and> n \<le> 190) \<or> (192 \<le> n \<and> n \<le> 214) \<or>
      (216 \<le> n \<and> n \<le> 246) \<or> (248 \<le> n \<and> n \<le> 255))"

definition lower_char :: "char \<Rightarrow> char" where
  "lower_char c =
     (let n = (of_char c :: nat) in
      if (65 \<le> n \<and> n \<le> 90) \<or> (192 \<le> n \<and> n \<le> 222 \<and> n \<noteq> 215)
      then char_of (n + 32) else c)"

definition lower :: "string \<Rightarrow> string" where
  "lower s = map lower_char s"

definition strip :: "string \<Rightarrow> string" where
  "strip s = rev (dropWhile is_space (rev (dropWhile is_space s)))"

section \<open>The regular expressions of the pattern tables\<close>

text \<open>
  The constructs that occur in the patterns of \<open>query_processor.py\<close>: a literal character
  (compared case-insensitively, all patterns being used with \<open>re.IGNORECASE\<close>), \<open>.\<close>
  (any character but the newline), \<open>\w\<close>, the word boundary \<open>\b\<close>, sequence,
  alternation, and the greedy and the lazy star.
\<close>

datatype regex =
    Eps
  | Lit char
  | Dot
  | WordChar
  | Bound
  | Seq regex regex
  | Alt regex regex
  | Star regex
  | LazyStar regex

text \<open>
  A cursor is a position in the text: the character before it, if any, and the text that
  remains. \<open>\b\<close> holds where exactly one of the two neighbours is a word character.
\<close>

type_synonym cursor = "char option \<times> string"

definition at_boundary :: "char option \<Rightarrow> string \<Rightarrow> bool" where
  "at_boundary p s =
     ((case p of None \<Rightarrow> False | Some c \<Rightarrow> is_word c) \<noteq>
      (case s of [] \<Rightarrow> False | c # _ \<Rightarrow> is_word c))"

text \<open>
  \<open>ends r p s\<close> lists the cursors at which a match of \<open>r\<close> starting at \<open>(p, s)\<close> can
  end, in the order in which the backtracking matcher of \<open>re\<close> tries them: the left
  alternative before the right one, the longest repetition first for \<open>*\<close>, the shortest
  first for \<open>*?\<close>. The head of the list is the match that \<open>re\<close> reports. A repetition
  only continues after an iteration that consumed text.
\<close>

function ends :: "regex \<Rightarrow> char option \<Rightarrow> string \<Rightarrow> cursor list" where
  "ends Eps p s = [(p, s)]"
| "ends (Lit c) p s =
     (case s of [] \<Rightarrow> []
      | x # xs \<Rightarrow> if lower_char x = lower_char c then [(Some x, xs)] else [])"
| "ends Dot p s =
     (case s of [] \<Rightarrow> [] | x # xs \<Rightarrow> if x \<noteq> CHR 0x0A then [(Some x, xs)] else [])"
| "ends WordChar p s =
     (case s of [] \<Rightarrow> [] | x # xs \<Rightarrow> if is_word x then [(Some x, xs)] else [])"
| "ends Bound p s = (if at_boundary p s then [(p, s)] else [])"
| "ends (Seq a b) p s = concat (map (\<lambda>c. ends b (fst c) (snd c)) (ends a p s))"
| "ends (Alt a b) p s = ends a p s @ ends b p s"
| "ends (Star a) p s =
     concat (map (\<lambda>c. if length (snd c) < length s
                        then ends (Star a) (fst c) (snd c) else [])
                 (ends a p s)) @ [(p, s)]"
| "ends (LazyStar a) p s =
     (p, s) #
     concat (map (\<lambda>c. if length (snd c) < length s
                        then ends (LazyStar a) (fst c) (snd c) else [])
                 (ends a p s))"
  by pat_completeness auto
termination
  by (relation "inv_image (less_than <*lex*> less_than) (\<lambda>(r, p, s). (size r, length s))")
     auto

text \<open>\<open>re.search\<close>: is there a match starting at some position of the text?\<close>

fun search_from :: "regex \<Rightarrow> char option \<Rightarrow> string \<Rightarrow> bool" where
  "search_from r p [] = (ends r p [] \<noteq> [])"
| "search_from r p (x # xs) = (ends r p (x # xs) \<noteq> [] \<or> search_from r (Some x) xs)"

definition re_search :: "regex \<Rightarrow> string \<Rightarrow> bool" where
  "re_search r s = search_from r None s"

text \<open>
  \<open>re.findall\<close>: the matched texts of the successive non-overlapping matches, scanning
  from the left; after a match the scan goes on where the match ended. No pattern of the
  tables matches the empty text; for an empty match the scan moves on by one character.
\<close>

function findall_from :: "regex \<Rightarrow> char option \<Rightarrow> string \<Rightarrow> string list" where
  "findall_from r p s =
     (case ends r p s of
        [] \<Rightarrow> (case s of [] \<Rightarrow> [] | x # xs \<Rightarrow> findall_from r (Some x) xs)
      | c # _ \<Rightarrow>
          if length (snd c) < length s
          then take (length s - length (snd c)) s # findall_from r (fst c) (snd c)
          else [] # (case s of [] \<Rightarrow> [] | x # xs \<Rightarrow> findall_from r (Some x) xs))"
  by pat_completeness auto
termination
  by (relation "measure (\<lambda>(r, p, s). length s)") auto

definition re_findall :: "regex \<Rightarrow> string \<Rightarrow> string list" where
  "re_findall r s = findall_from r None s"

text \<open>Writing patterns: a literal text, an alternation, \<open>a.*b\<close> and \<open>\b(...)\b\<close>.\<close>

fun lit :: "string \<Rightarrow> regex" where
  "lit [] = Eps"
| "lit [c] = Lit c"
| "lit (c # cs) = Seq (Lit c) (lit cs)"

fun alts :: "regex list \<Rightarrow> regex" where
  "alts [] = Eps"
| "alts [r] = r"
| "alts (r # rs) = Alt r (alts rs)"

definition gap :: "string \<Rightarrow> string \<Rightarrow> regex" where
  "gap a b = Seq (lit a) (Seq (Star Dot) (lit b))"

definition whole_word :: "regex list \<Rightarrow> regex" where
  "whole_word rs = Seq Bound (Seq (alts rs) Bound)"

section \<open>Data model\<close>

datatype query_type = FOOD | TRAFFIC | SLANG | ITINERARY | CULTURE | GENERAL | INVALID

text \<open>
  The values a caller can pass for \<open>query_text\<close>. The parameter is annotated \<open>str\<close>, and
  Python does not enforce the annotation: \<open>None\<close>, an \<open>int\<close> and a \<open>list\<close> of strings stand
  for the arguments that are not strings.
\<close>

datatype py_value = PyStr string | PyNone | PyInt int | PyList "string list"

text \<open>
  The confidence is a Python float; the model computes with exact rationals. The field
  \<open>original_text\<close> holds the argument as it was passed.
\<close>

record processed_query =
  original_text :: py_value
  cleaned_text :: string
  query_type :: query_type
  key_words :: "string list"
  time_context :: "string option"
  location_context :: "string option"
  confidence :: rat
  is_valid :: bool

text \<open>\<open>AgentResponse\<close>: content, confidence, sources used, slang explained.\<close>

datatype agent_response =
  AgentResponse string rat "string list" "(string \<times> string) list"

record query_processing_result =
  processed_query :: processed_query
  agent_response :: "agent_response option"
  processing_time_ms :: rat
  success :: bool
  error_message :: "string option"

section \<open>QueryValidator\<close>

definition min_length :: nat where
  "min_length = 2"

definition max_length :: nat where
  "max_length = 500"

definition forbidden_patterns :: "regex list" where
  "forbidden_patterns =
     [Seq (lit ''<script'') (Seq (LazyStar Dot) (Seq (Lit CHR ''>'')
        (Seq (LazyStar Dot) (lit ''</script>'')))),
      lit ''javascript:'',
      lit ''data:'',
      lit ''vbscript:'']"

text \<open>
  \<open>re.sub(r'\s+', ' ', s)\<close>: every maximal run of whitespace becomes one space.
\<close>

function collapse_ws :: "string \<Rightarrow> string" where
  "collapse_ws [] = []"
| "collapse_ws (c # cs) =
     (if is_space c then CHR '' '' # collapse_ws (dropWhile is_space cs)
      else c # collapse_ws cs)"
  by pat_completeness auto
termination
  by (relation "measure length") (auto simp: length_dropWhile_le less_Suc_eq_le)

text \<open>\<open>re.sub(r'[<>{}]', '', s)\<close>: the four characters are deleted.\<close>

definition harmful :: "char \<Rightarrow> bool" where
  "harmful c = (c = CHR ''<'' \<or> c = CHR ''>'' \<or> c = CHR ''{'' \<or> c = CHR ''}'')"

definition clean_query :: "string \<Rightarrow> string" where
  "clean_query query_text =
     (let cleaned = collapse_ws (strip query_text)
      in filter (\<lambda>c. \<not> harmful c) cleaned)"

definition validate_query :: "string \<Rightarrow> bool \<times> string \<times> string" where
  "validate_query query_text =
     (if query_text = [] then (False, [], ''Query cannot be empty'')
      else if length (strip query_text) < min_length
      then (False, [], ''Query too short (minimum 2 characters)'')
      else if length query_text > max_length
      then (False, [], ''Query too long (maximum 500 characters)'')
      else if list_ex (\<lambda>pattern. re_search pattern (lower query_text)) forbidden_patterns
      then (False, [], ''Query contains invalid content'')
      else (True, clean_query query_text, []))"

section \<open>QueryAnalyzer\<close>

text \<open>
  The three tables are Python dictionaries; iteration follows the order of insertion,
  which is the order of declaration, so each is an association list in that order.
\<close>

definition query_patterns :: "(query_type \<times> regex list) list" where
  "query_patterns =
     [(FOOD,
        [whole_word (map lit [''food'', ''eat'', ''breakfast'', ''lunch'', ''dinner'',
           ''restaurant'', ''cafe'', ''dosa'', ''idli'', ''meal'', ''hungry'', ''taste'']),
         whole_word [gap ''where'' ''eat'', gap ''what'' ''eat'', gap ''food'' ''recommend'',
           gap ''restaurant'' ''suggest''],
         whole_word (map lit [''malleshwaram'', ''basavanagudi'', ''vv puram'',
           ''street food''])]),
      (TRAFFIC,
        [whole_word (map lit [''traffic'', ''road'', ''drive'', ''metro'', ''transport'',
           ''travel'', ''commute'', ''bus'', ''auto'']),
         whole_word (map lit [''silk board'', ''electronic city'', ''outer ring'',
           ''whitefield'', ''hebbal'']),
         whole_word [gap ''how'' ''reach'', gap ''traffic'' ''bad'', gap ''metro'' ''better'',
           gap ''avoid'' ''traffic'']]),
      (SLANG,
        [whole_word [lit ''slang'', lit ''mean'', lit ''meaning'', gap ''what'' ''mean'',
           lit ''explain'', lit ''guru'', lit ''machcha'', lit ''sakkath'', lit ''scene illa''],
         whole_word [gap ''what'' ''guru'', gap ''what'' ''machcha'', gap ''what'' ''sakkath'',
           lit ''scene illa maga'']]),
      (ITINERARY,
        [whole_word (map lit [''itinerary'', ''plan'', ''day'', ''visit'', ''places'', ''tour'',
           ''trip'', ''schedule'']),
         whole_word [lit ''one day'', lit ''full day'', gap ''places'' ''visit'',
           gap ''what'' ''see'', gap ''plan'' ''day'']]),
      (CULTURE,
        [whole_word (map lit [''culture'', ''custom'', ''tradition'', ''etiquette'',
           ''behavior'', ''respect'', ''temple'']),
         whole_word [gap ''cultural'' ''norm'', gap ''how'' ''behave'', gap ''what'' ''expect'',
           gap ''local'' ''custom'']])]"

definition time_patterns :: "(string \<times> regex) list" where
  "time_patterns =
     [(''morning'', whole_word (map lit [''morning'', ''breakfast'', ''6am'', ''7am'', ''8am'',
         ''9am'', ''early''])),
      (''afternoon'', whole_word (map lit [''afternoon'', ''lunch'', ''12pm'', ''1pm'', ''2pm'',
         ''3pm'', ''noon''])),
      (''evening'', whole_word (map lit [''evening'', ''dinner'', ''6pm'', ''7pm'', ''8pm'',
         ''9pm'', ''night'']))]"

definition location_patterns :: "(string \<times> regex) list" where
  "location_patterns =
     [(''malleshwaram'', whole_word [lit ''malleshwaram'']),
      (''basavanagudi'', whole_word [lit ''basavanagudi'']),
      (''koramangala'', whole_word [lit ''koramangala'']),
      (''indiranagar'', whole_word [lit ''indiranagar'']),
      (''whitefield'', whole_word [lit ''whitefield'']),
      (''electronic_city'', whole_word [lit ''electronic city'']),
      (''silk_board'', whole_word [lit ''silk board''])]"

text \<open>The score of one intent: the matches of all its patterns, added up.\<close>

definition score :: "regex list \<Rightarrow> string \<Rightarrow> nat" where
  "score patterns query_lower =
     sum_list (map (\<lambda>pattern. length (re_findall pattern query_lower)) patterns)"

text \<open>\<open>type_scores\<close>: the intents of positive score, in the order of the table.\<close>

definition type_scores :: "string \<Rightarrow> (query_type \<times> nat) list" where
  "type_scores query_lower =
     filter (\<lambda>e. snd e > 0)
       (map (\<lambda>e. (fst e, score (snd e) query_lower)) query_patterns)"

text \<open>
  \<open>max(type_scores, key=type_scores.get)\<close>: Python's \<open>max\<close> keeps the first element
  and replaces it only by one whose key is strictly greater.
\<close>

fun max_from :: "'a \<times> nat \<Rightarrow> ('a \<times> nat) list \<Rightarrow> 'a \<times> nat" where
  "max_from best [] = best"
| "max_from best (e # es) = (if snd e > snd best then max_from e es else max_from best es)"

definition determine_query_type :: "string \<Rightarrow> query_type \<times> rat" where
  "determine_query_type query_lower =
     (case type_scores query_lower of
        [] \<Rightarrow> (GENERAL, 1 / 2)
      | e # es \<Rightarrow>
          (let best = max_from e es;
               best_type = fst best;
               max_score = snd best
           in (best_type, min (9 / 10) (1 / 2 + of_nat max_score * (2 / 10)))))"

definition stop_words :: "string list" where
  "stop_words = [''the'', ''is'', ''at'', ''which'', ''on'', ''a'', ''an'', ''and'', ''or'',
     ''but'', ''in'', ''with'', ''to'', ''for'', ''of'', ''as'', ''by'']"

definition extract_keywords :: "string \<Rightarrow> string list" where
  "extract_keywords query_lower =
     (let words = re_findall (Seq Bound (Seq (Seq WordChar (Star WordChar)) Bound)) query_lower;
          kws = filter (\<lambda>word. word \<notin> set stop_words \<and> length word > 2) words
      in take 10 kws)"

text \<open>The first entry of a table whose pattern is found in the text.\<close>

fun first_match :: "(string \<times> regex) list \<Rightarrow> string \<Rightarrow> string option" where
  "first_match [] query_lower = None"
| "first_match (e # es) query_lower =
     (if re_search (snd e) query_lower then Some (fst e) else first_match es query_lower)"

definition extract_time_context :: "string \<Rightarrow> string option" where
  "extract_time_context query_lower = first_match time_patterns query_lower"

definition extract_location_context :: "string \<Rightarrow> string option" where
  "extract_location_context query_lower = first_match location_patterns query_lower"

definition analyze_query :: "string \<Rightarrow> processed_query" where
  "analyze_query query_text =
     (let query_lower = lower query_text;
          tc = determine_query_type query_lower;
          qtype = fst tc;
          conf = snd tc
      in \<lparr> original_text = PyStr query_text,
           cleaned_text = query_text,
           query_type = qtype,
           key_words = extract_keywords query_lower,
           time_context = extract_time_context query_lower,
           location_context = extract_location_context query_lower,
           confidence = conf,
           is_valid = (qtype \<noteq> INVALID \<and> conf > 3 / 10) \<rparr>)"

section \<open>QueryProcessor\<close>

text \<open>
  What \<open>process_query\<close> takes from outside: the two readings of the clock (in seconds)
  and the agent manager, whose \<open>initialize_agent\<close> and \<open>process_user_query\<close> read files
  and either return or raise. Every exception they raise is a subclass of \<open>Exception\<close>.
\<close>

datatype py_exception =
    FileNotFoundError string
  | ValueError string
  | RuntimeError string
  | AttributeError string
  | OtherException string

fun exception_str :: "py_exception \<Rightarrow> string" where
  "exception_str (FileNotFoundError m) = m"
| "exception_str (ValueError m) = m"
| "exception_str (RuntimeError m) = m"
| "exception_str (AttributeError m) = m"
| "exception_str (OtherException m) = m"

record environment =
  now_start :: rat
  now_end :: rat
  initialize_agent :: "py_exception option"
  process_user_query :: "string \<Rightarrow> py_exception + agent_response"

definition get_elapsed_ms :: "environment \<Rightarrow> rat" where
  "get_elapsed_ms env = (now_end env - now_start env) * 1000"

definition invalid_query :: "py_value \<Rightarrow> string \<Rightarrow> processed_query" where
  "invalid_query query_text cleaned =
     \<lparr> original_text = query_text,
       cleaned_text = cleaned,
       query_type = INVALID,
       key_words = [],
       time_context = None,
       location_context = None,
       confidence = 0,
       is_valid = False \<rparr>"

text \<open>
  The body of the \<open>try\<close> block. The state is the flag \<open>_agent_initialized\<close>; it is
  returned as the call leaves it. The first component is the exception raised inside
  the block, or the result the block returns, together with the cleaned text that the
  handler finds among the local variables.
\<close>

definition process_query_try ::
  "environment \<Rightarrow> bool \<Rightarrow> string \<Rightarrow> (py_exception \<times> string + query_processing_result) \<times> bool"
where
  "process_query_try env agent_initialized query_text =
     (case validate_query query_text of
        (valid, cleaned, error_msg) \<Rightarrow>
          if \<not> valid
          then (Inr \<lparr> processed_query = invalid_query (PyStr query_text) [],
                       agent_response = None,
                       processing_time_ms = get_elapsed_ms env,
                       success = False,
                       error_message = Some error_msg \<rparr>, agent_initialized)
          else
            (let pq = analyze_query cleaned in
             if \<not> is_valid pq
             then (Inr \<lparr> processed_query = pq,
                          agent_response = None,
                          processing_time_ms = get_elapsed_ms env,
                          success = False,
                          error_message = Some ''Query could not be understood'' \<rparr>,
                   agent_initialized)
             else
               (case (if agent_initialized then None else initialize_agent env) of
                  Some e \<Rightarrow> (Inl (e, cleaned), agent_initialized)
                | None \<Rightarrow>
                    (case process_user_query env cleaned of
                       Inl e \<Rightarrow> (Inl (e, cleaned), True)
                     | Inr response \<Rightarrow>
                         (Inr \<lparr> processed_query = pq,
                                agent_response = Some response,
                                processing_time_ms = get_elapsed_ms env,
                                success = True,
                                error_message = None \<rparr>, True)))))"

text \<open>\<open>process_query\<close>: the \<open>try\<close> block and its handler \<open>except Exception\<close>.\<close>

definition process_query ::
  "environment \<Rightarrow> bool \<Rightarrow> string \<Rightarrow> query_processing_result \<times> bool"
where
  "process_query env agent_initialized query_text =
     (case process_query_try env agent_initialized query_text of
        (Inr result, st) \<Rightarrow> (result, st)
      | (Inl (e, cleaned), st) \<Rightarrow>
          (\<lparr> processed_query = invalid_query (PyStr query_text) cleaned,
             agent_response = None,
             processing_time_ms = get_elapsed_ms env,
             success = False,
             error_message = Some (''Processing error: '' @ exception_str e) \<rparr>, st))"

text \<open>
  The same function with nothing taken for granted about the call: the argument is any
  value, the agent manager may raise an exception of any class, and the call itself may
  end by raising. \<open>BaseException\<close> has the subclass \<open>Exception\<close>, to which every exception
  above belongs, and the classes \<open>KeyboardInterrupt\<close> and \<open>SystemExit\<close> beside it; the
  handler \<open>except Exception\<close> catches the former only.
\<close>

datatype py_base_exception =
    IsException py_exception
  | KeyboardInterrupt
  | SystemExit string

record py_environment =
  py_now_start :: rat
  py_now_end :: rat
  py_initialize_agent :: "py_base_exception option"
  py_process_user_query :: "string \<Rightarrow> py_base_exception + agent_response"

definition py_get_elapsed_ms :: "py_environment \<Rightarrow> rat" where
  "py_get_elapsed_ms env = (py_now_end env - py_now_start env) * 1000"

text \<open>
  \<open>validate_query\<close> on any value. \<open>not query_text\<close> holds of \<open>None\<close>, \<open>0\<close>, the empty
  list and the empty string; of the others, only a string has the method \<open>strip\<close>.
\<close>

definition no_attribute :: "string \<Rightarrow> string \<Rightarrow> py_exception" where
  "no_attribute type_name attribute =
     AttributeError
       ([CHR 0x27] @ type_name @ [CHR 0x27] @ '' object has no attribute '' @
        [CHR 0x27] @ attribute @ [CHR 0x27])"

fun validate_query_py :: "py_value \<Rightarrow> py_base_exception + bool \<times> string \<times> string" where
  "validate_query_py (PyStr s) = Inr (validate_query s)"
| "validate_query_py PyNone = Inr (False, [], ''Query cannot be empty'')"
| "validate_query_py (PyInt n) =
     (if n = 0 then Inr (False, [], ''Query cannot be empty'')
      else Inl (IsException (no_attribute ''int'' ''strip'')))"
| "validate_query_py (PyList xs) =
     (if xs = [] then Inr (False, [], ''Query cannot be empty'')
      else Inl (IsException (no_attribute ''list'' ''strip'')))"

text \<open>
  The body of the \<open>try\<close> block: what it raises, with the value of \<open>cleaned_text\<close> when
  that local variable is bound at the time, or the result it returns.
\<close>

definition process_query_py_try ::
  "py_environment \<Rightarrow> bool \<Rightarrow> py_value \<Rightarrow>
     (py_base_exception \<times> string option + query_processing_result) \<times> bool"
where
  "process_query_py_try env agent_initialized query_text =
     (case validate_query_py query_text of
        Inl x \<Rightarrow> (Inl (x, None), agent_initialized)
      | Inr (valid, cleaned, error_msg) \<Rightarrow>
          if \<not> valid
          then (Inr \<lparr> processed_query = invalid_query query_text [],
                       agent_response = None,
                       processing_time_ms = py_get_elapsed_ms env,
                       success = False,
                       error_message = Some error_msg \<rparr>, agent_initialized)
          else
            (let pq = analyze_query cleaned in
             if \<not> is_valid pq
             then (Inr \<lparr> processed_query = pq,
                          agent_response = None,
                          processing_time_ms = py_get_elapsed_ms env,
                          success = False,
                          error_message = Some ''Query could not be understood'' \<rparr>,
                   agent_initialized)
             else
               (case (if agent_initialized then None else py_initialize_agent env) of
                  Some x \<Rightarrow> (Inl (x, Some cleaned), agent_initialized)
                | None \<Rightarrow>
                    (case py_process_user_query env cleaned of
                       Inl x \<Rightarrow> (Inl (x, Some cleaned), True)
                     | Inr response \<Rightarrow>
                         (Inr \<lparr> processed_query = pq,
                                agent_response = Some response,
                                processing_time_ms = py_get_elapsed_ms env,
                                success = True,
                                error_message = None \<rparr>, True)))))"

text \<open>The result that the handler builds from a caught exception.\<close>

definition processing_error ::
  "py_environment \<Rightarrow> py_value \<Rightarrow> string option \<Rightarrow> py_exception \<Rightarrow> query_processing_result"
where
  "processing_error env query_text cleaned_local e =
     \<lparr> processed_query =
         invalid_query query_text (case cleaned_local of Some cleaned \<Rightarrow> cleaned | None \<Rightarrow> []),
       agent_response = None,
       processing_time_ms = py_get_elapsed_ms env,
       success = False,
       error_message = Some (''Processing error: '' @ exception_str e) \<rparr>"

text \<open>
  \<open>process_query\<close> as a call that returns (\<open>Inr\<close>) or raises (\<open>Inl\<close>): an exception of
  the class \<open>Exception\<close> is handled, any other leaves the function.
\<close>

definition process_query_py ::
  "py_environment \<Rightarrow> bool \<Rightarrow> py_value \<Rightarrow> (py_base_exception + query_processing_result) \<times> bool"
where
  "process_query_py env agent_initialized query_text =
     (case process_query_py_try env agent_initialized query_text of
        (Inr result, st) \<Rightarrow> (Inr result, st)
      | (Inl (IsException e, cleaned_local), st) \<Rightarrow>
          (Inr (processing_error env query_text cleaned_local e), st)
      | (Inl (x, cleaned_local), st) \<Rightarrow> (Inl x, st))"

section \<open>Notions used to state the properties\<close>

text \<open>
  The intents of the pattern table in the order of declaration, the match count of one
  intent, whether any intent pattern matches, and the rank of an intent in the order
  Food, Traffic, Slang, Itinerary, Culture (a smaller rank is a higher priority).
\<close>

definition intents :: "query_type list" where
  "intents = map fst query_patterns"

definition intent_score :: "query_type \<Rightarrow> string \<Rightarrow> nat" where
  "intent_score qt query_lower =
     (case map_of query_patterns qt of None \<Rightarrow> 0 | Some ps \<Rightarrow> score ps query_lower)"

definition any_match :: "string \<Rightarrow> bool" where
  "any_match query_lower = list_ex (\<lambda>qt. 0 < intent_score qt query_lower) intents"

fun priority :: "query_type \<Rightarrow> nat" where
  "priority FOOD = 0"
| "priority TRAFFIC = 1"
| "priority SLANG = 2"
| "priority ITINERARY = 3"
| "priority CULTURE = 4"
| "priority GENERAL = 5"
| "priority INVALID = 6"

text \<open>
  The greatest match count of an intent of the table: the score that wins.
\<close>

definition winning_score :: "string \<Rightarrow> nat" where
  "winning_score query_lower = foldr max (map (\<lambda>qt. intent_score qt query_lower) intents) 0"

text \<open>An environment in which the clock advances by one millisecond and the agent answers.\<close>

definition env0 :: environment where
  "env0 = \<lparr> now_start = 0, now_end = 1 / 1000, initialize_agent = None,
            process_user_query = (\<lambda>q. Inr (AgentResponse q (9 / 10) [''product.md''] [])) \<rparr>"

text \<open>The same with a later clock, and one in which the knowledge file is missing.\<close>

definition env_later :: environment where
  "env_later = env0 \<lparr> now_start := 5, now_end := 7 \<rparr>"

definition env_missing_file :: environment where
  "env_missing_file = \<lparr> now_start = 0, now_end = 1 / 1000,
     initialize_agent = Some (FileNotFoundError ''Product file not found''),
     process_user_query = (\<lambda>q. Inr (AgentResponse q (9 / 10) [''product.md''] [])) \<rparr>"

text \<open>
  An agent manager that raises exceptions of the class \<open>Exception\<close> only, as a
  \<open>py_environment\<close>; and whether a raised exception belongs to that class.
\<close>

definition py_env :: "environment \<Rightarrow> py_environment" where
  "py_env env =
     \<lparr> py_now_start = now_start env, py_now_end = now_end env,
       py_initialize_agent = map_option IsException (initialize_agent env),
       py_process_user_query = (\<lambda>q. map_sum IsException id (process_user_query env q)) \<rparr>"

fun is_exception :: "py_base_exception \<Rightarrow> bool" where
  "is_exception (IsException e) = True"
| "is_exception KeyboardInterrupt = False"
| "is_exception (SystemExit m) = False"

text \<open>An environment in which the agent is initialised and then fails to answer.\<close>

definition env_no_answer :: environment where
  "env_no_answer = \<lparr> now_start = 0, now_end = 1 / 1000, initialize_agent = None,
     process_user_query =
       (\<lambda>q. Inl (RuntimeError ''Agent not initialized. Call initialize_agent() first.'')) \<rparr>"

text \<open>
  Texts in normal form: \<open>squeezed\<close>, every whitespace character is a single blank
  followed by no whitespace; \<open>trimmed\<close>, no whitespace at either end.
\<close>

fun squeezed :: "string \<Rightarrow> bool" where
  "squeezed [] = True"
| "squeezed (c # cs) =
     ((if is_space c then c = CHR '' '' \<and> (case cs of [] \<Rightarrow> True | d # _ \<Rightarrow> \<not> is_space d)
       else True) \<and> squeezed cs)"

definition trimmed :: "string \<Rightarrow> bool" where
  "trimmed s = (s = [] \<or> (\<not> is_space (hd s) \<and> \<not> is_space (last s)))"

text \<open>Whether the pattern of a period of the day is found in a text.\<close>

definition mentions :: "string \<Rightarrow> string \<Rightarrow> bool" where
  "mentions period query_lower =
     (case map_of time_patterns period of
        None \<Rightarrow> False
      | Some pattern \<Rightarrow> re_search pattern query_lower)"

section \<open>Scores and the first maximum\<close>

lemma intents_eq: "intents = [FOOD, TRAFFIC, SLANG, ITINERARY, CULTURE]"
  by (simp add: intents_def query_patterns_def)

lemma table_scores:
  assumes "distinct (map fst tbl)"
  shows "map (\<lambda>e. (fst e, score (snd e) q)) tbl =
   map (\<lambda>k. (k, case map_of tbl k of None \<Rightarrow> 0 | Some ps \<Rightarrow> score ps q)) (map fst tbl)"
proof -
  have "map_of tbl (fst e) = Some (snd e)" if "e \<in> set tbl" for e
    using assms that by (intro map_of_is_SomeI) simp_all
  then show ?thesis by (simp add: comp_def)
qed

lemma type_scores_intents:
  "type_scores q = filter (\<lambda>e. 0 < snd e) (map (\<lambda>qt. (qt, intent_score qt q)) intents)"
proof -
  have "distinct (map fst query_patterns)"
    using intents_eq by (simp add: intents_def)
  from table_scores [OF this, of q] show ?thesis
    unfolding type_scores_def intents_def intent_score_def by (simp only:)
qed

lemma max_from_split:
  "\<exists>pre post. b # es = pre @ max_from b es # post \<and>
     (\<forall>e\<in>set pre. snd e < snd (max_from b es)) \<and>
     (\<forall>e\<in>set post. snd e \<le> snd (max_from b es))"
proof (induction es arbitrary: b)
  case Nil
  show ?case by (rule exI [of _ "[]"]) simp
next
  case (Cons e es)
  show ?case
  proof (cases "snd b < snd e")
    case True
    from Cons [of e] obtain pre post where
      sp: "e # es = pre @ max_from e es # post"
      and lt: "\<forall>x\<in>set pre. snd x < snd (max_from e es)"
      and le: "\<forall>x\<in>set post. snd x \<le> snd (max_from e es)" by blast
    have "snd e \<le> snd (max_from e es)"
    proof (cases pre)
      case Nil
      with sp have "e # es = max_from e es # post" by (simp only: append_Nil)
      then have "max_from e es = e" by (metis list.inject)
      then show ?thesis by simp
    next
      case (Cons y ys) with sp lt show ?thesis by auto
    qed
    with True have bm: "\<forall>x\<in>set (b # pre). snd x < snd (max_from e es)"
      using lt by simp
    have m: "max_from b (e # es) = max_from e es" using True by simp
    have "b # e # es = (b # pre) @ max_from e es # post" using sp by simp
    then show ?thesis unfolding m using bm le by blast
  next
    case False
    from Cons [of b] obtain pre post where
      sp: "b # es = pre @ max_from b es # post"
      and lt: "\<forall>x\<in>set pre. snd x < snd (max_from b es)"
      and le: "\<forall>x\<in>set post. snd x \<le> snd (max_from b es)" by blast
    show ?thesis
    proof (cases pre)
      case Nil
      with sp have "b # es = max_from b es # post" by (simp only: append_Nil)
      then have mb: "max_from b es = b" and "post = es" by (metis list.inject)+
      with False le have le': "\<forall>x\<in>set (e # es). snd x \<le> snd b" by auto
      have m: "max_from b (e # es) = b" using False mb by simp
      have "b # e # es = [] @ b # e # es" by simp
      then show ?thesis unfolding m using le' by (metis empty_iff list.set(1))
    next
      case (Cons y ys)
      with sp have "b # es = y # (ys @ max_from b es # post)" by (simp only: append_Cons)
      then have y: "y = b" and es: "es = ys @ max_from b es # post"
        by (metis list.inject)+
      from lt Cons y have "snd b < snd (max_from b es)" by simp
      with False have "snd e < snd (max_from b es)" by simp
      with lt Cons y have lt': "\<forall>x\<in>set (b # e # ys). snd x < snd (max_from b es)"
        by simp
      have m: "max_from b (e # es) = max_from b es" using False by simp
      have "b # e # es = (b # e # ys) @ max_from b es # post" using es by simp
      then show ?thesis unfolding m using lt' le by blast
    qed
  qed
qed

lemma type_scores_mem:
  "(qt, n) \<in> set (type_scores q) \<longleftrightarrow> qt \<in> set intents \<and> n = intent_score qt q \<and> 0 < n"
  by (auto simp: type_scores_intents)

lemma type_scores_sorted:
  "sorted_wrt (\<lambda>a b. priority (fst a) < priority (fst b)) (type_scores q)"
  unfolding type_scores_intents
  by (rule sorted_wrt_filter) (simp add: intents_eq)

lemma any_match_iff: "any_match q \<longleftrightarrow> type_scores q \<noteq> []"
proof -
  have "type_scores q \<noteq> [] \<longleftrightarrow> (\<exists>e. e \<in> set (type_scores q))"
    by (cases "type_scores q") auto
  also have "\<dots> \<longleftrightarrow> (\<exists>qt\<in>set intents. 0 < intent_score qt q)"
    using type_scores_mem [of _ _ q] by (metis surj_pair)
  finally show ?thesis by (simp add: any_match_def list_ex_iff)
qed

lemma no_match_general: "\<not> any_match q \<Longrightarrow> determine_query_type q = (GENERAL, 1 / 2)"
  by (simp add: any_match_iff determine_query_type_def)

lemma winner:
  assumes "any_match q"
  obtains bt where
    "determine_query_type q = (bt, min (9 / 10) (1 / 2 + of_nat (intent_score bt q) * (2 / 10)))"
    "bt \<in> set intents" "0 < intent_score bt q"
    "\<forall>qt\<in>set intents. intent_score qt q \<le> intent_score bt q \<and>
       (intent_score qt q = intent_score bt q \<longrightarrow> priority bt \<le> priority qt)"
proof -
  from assms obtain e es where ts: "type_scores q = e # es"
    by (auto simp: any_match_iff neq_Nil_conv)
  define m where "m = max_from e es"
  from max_from_split [of e es] obtain pre post where
    sp: "e # es = pre @ m # post"
    and lt: "\<forall>x\<in>set pre. snd x < snd m"
    and le: "\<forall>x\<in>set post. snd x \<le> snd m"
    unfolding m_def by blast
  have tsp: "type_scores q = pre @ m # post"
    by (simp only: ts sp)
  have mem: "set (type_scores q) = set pre \<union> {m} \<union> set post"
    by (simp add: tsp)
  then have "(fst m, snd m) \<in> set (type_scores q)" by simp
  then have "fst m \<in> set intents \<and> snd m = intent_score (fst m) q \<and> 0 < snd m"
    using type_scores_mem [of "fst m" "snd m" q] by blast
  then have bt: "fst m \<in> set intents" "snd m = intent_score (fst m) q" "0 < snd m"
    by blast+
  have srt: "sorted_wrt (\<lambda>a b. priority (fst a) < priority (fst b)) (pre @ m # post)"
    using type_scores_sorted [of q] by (simp only: tsp)
  have dq: "determine_query_type q =
      (fst m, min (9 / 10) (1 / 2 + of_nat (intent_score (fst m) q) * (2 / 10)))"
    using ts bt(2) by (simp add: determine_query_type_def m_def Let_def)
  have best: "intent_score qt q \<le> intent_score (fst m) q \<and>
       (intent_score qt q = intent_score (fst m) q \<longrightarrow> priority (fst m) \<le> priority qt)"
    if qt: "qt \<in> set intents" for qt
  proof (cases "0 < intent_score qt q")
    case False
    with bt show ?thesis by simp
  next
    case True
    with qt have "(qt, intent_score qt q) \<in> set (type_scores q)"
      by (simp add: type_scores_mem)
    with mem consider "(qt, intent_score qt q) \<in> set pre" | "(qt, intent_score qt q) = m"
      | "(qt, intent_score qt q) \<in> set post" by auto
    then show ?thesis
    proof cases
      case 1
      with lt have "intent_score qt q < snd m" by fastforce
      with bt show ?thesis by simp
    next
      case 2
      then have "fst m = qt" by auto
      then show ?thesis by simp
    next
      case 3
      with le have a: "intent_score qt q \<le> snd m" by fastforce
      from 3 srt have "priority (fst m) < priority qt"
        by (fastforce simp: sorted_wrt_append)
      with a bt show ?thesis by simp
    qed
  qed
  have pos: "0 < intent_score (fst m) q" using bt(2) bt(3) by simp
  show thesis
  proof (rule that [OF dq bt(1) pos])
    show "\<forall>qt\<in>set intents. intent_score qt q \<le> intent_score (fst m) q \<and>
       (intent_score qt q = intent_score (fst m) q \<longrightarrow> priority (fst m) \<le> priority qt)"
      using best by blast
  qed
qed

lemma foldr_max_upper: "x \<in> set xs \<Longrightarrow> f x \<le> foldr max (map f xs) (0::nat)"
  by (induction xs) (auto simp: max_def)

lemma foldr_max_lower: "\<forall>x\<in>set xs. f x \<le> m \<Longrightarrow> foldr max (map f xs) (0::nat) \<le> m"
  by (induction xs) auto

lemma winning_score_eq:
  assumes "bt \<in> set intents" and "\<forall>qt\<in>set intents. intent_score qt q \<le> intent_score bt q"
  shows "winning_score q = intent_score bt q"
  unfolding winning_score_def
  using foldr_max_upper [OF assms(1), of "\<lambda>qt. intent_score qt q"]
    foldr_max_lower [OF assms(2)]
  by (rule_tac antisym)

lemma winning_score_upper: "intent_score qt q \<le> winning_score q"
proof (cases "qt \<in> set intents")
  case True
  then show ?thesis unfolding winning_score_def by (rule foldr_max_upper)
next
  case False
  then have "map_of query_patterns qt = None"
    by (simp add: intents_def map_of_eq_None_iff)
  then show ?thesis by (simp add: intent_score_def)
qed

section \<open>The shape of the result of the pipeline\<close>

lemma validate_accept:
  "fst (validate_query t) \<Longrightarrow> validate_query t = (True, clean_query t, [])"
  by (simp add: validate_query_def split: if_splits)

lemma validate_reject:
  "\<not> fst (validate_query t) \<Longrightarrow> fst (snd (validate_query t)) = []"
  by (simp add: validate_query_def split: if_splits)

lemma analyze_confidence:
  "confidence (analyze_query s) = snd (determine_query_type (lower s))"
  "query_type (analyze_query s) = fst (determine_query_type (lower s))"
  by (simp_all add: analyze_query_def Let_def)

lemma determine_bounds:
  "1 / 2 \<le> snd (determine_query_type q) \<and> snd (determine_query_type q) \<le> 9 / 10 \<and>
   fst (determine_query_type q) \<noteq> INVALID \<and>
   (any_match q \<longrightarrow> 7 / 10 \<le> snd (determine_query_type q))"
proof (cases "any_match q")
  case False
  then show ?thesis by (simp add: no_match_general)
next
  case True
  from winner [OF True] obtain bt where
    dq: "determine_query_type q =
       (bt, min (9 / 10) (1 / 2 + of_nat (intent_score bt q) * (2 / 10)))"
    and bt: "bt \<in> set intents" and pos: "0 < intent_score bt q" by blast
  from pos have "(1::rat) \<le> of_nat (intent_score bt q)" by simp
  then have "(7::rat) / 10 \<le> min (9 / 10) (1 / 2 + of_nat (intent_score bt q) * (2 / 10)) \<and>
      min (9 / 10) (1 / 2 + of_nat (intent_score bt q) * (2 / 10)) \<le> (9::rat) / 10 \<and>
      (1::rat) / 2 \<le> min (9 / 10) (1 / 2 + of_nat (intent_score bt q) * (2 / 10))"
    by linarith
  moreover from bt have "bt \<noteq> INVALID" by (auto simp: intents_eq)
  ultimately show ?thesis unfolding dq fst_conv snd_conv by blast
qed

lemma analyze_is_valid: "is_valid (analyze_query s)"
  using determine_bounds [of "lower s"] by (simp add: analyze_query_def Let_def)

lemma process_query_shape:
  "processed_query (fst (process_query env st t)) =
     (if fst (validate_query t) \<and> \<not> isl (fst (process_query_try env st t))
      then analyze_query (clean_query t)
      else invalid_query (PyStr t) (fst (snd (validate_query t))))"
proof (cases "fst (validate_query t)")
  case False
  then obtain c m where "validate_query t = (False, c, m)"
    by (cases "validate_query t") auto
  moreover from this False have "c = []" using validate_reject [of t] by simp
  ultimately show ?thesis
    by (simp add: process_query_def process_query_try_def)
next
  case True
  note v = validate_accept [OF True]
  show ?thesis
    by (simp add: process_query_def process_query_try_def v analyze_is_valid Let_def
        split: option.splits sum.splits)
qed

lemma py_env_simps:
  "py_get_elapsed_ms (py_env env) = get_elapsed_ms env"
  "py_initialize_agent (py_env env) = map_option IsException (initialize_agent env)"
  "py_process_user_query (py_env env) q = map_sum IsException id (process_user_query env q)"
  by (simp_all add: py_get_elapsed_ms_def get_elapsed_ms_def py_env_def)

lemma validate_py_raises: "validate_query_py v = Inl x \<Longrightarrow> is_exception x"
  by (cases v) (auto split: if_splits)

lemma py_try_raises:
  assumes "fst (process_query_py_try env st v) = Inl (x, c)"
  shows "is_exception x \<or> py_initialize_agent env = Some x \<or>
    (\<exists>q. py_process_user_query env q = Inl x)"
proof (cases "validate_query_py v")
  case (Inl y)
  with assms have "y = x" by (simp add: process_query_py_try_def)
  with Inl validate_py_raises show ?thesis by blast
next
  case (Inr r)
  obtain valid cleaned msg where r: "r = (valid, cleaned, msg)" by (cases r) auto
  from assms Inr r show ?thesis
    by (auto simp: process_query_py_try_def Let_def
        split: if_splits option.splits sum.splits)
qed

lemma py_try_returns:
  assumes "fst (process_query_py_try env st v) = Inr r"
  shows "success r \<or> error_message r \<noteq> None"
proof (cases "validate_query_py v")
  case (Inl y)
  with assms show ?thesis by (simp add: process_query_py_try_def)
next
  case (Inr w)
  obtain valid cleaned msg where w: "w = (valid, cleaned, msg)" by (cases w) auto
  from assms Inr w show ?thesis
    by (auto simp: process_query_py_try_def Let_def
        split: if_splits option.splits sum.splits)
qed

text \<open>
  On a string, with an agent manager that raises exceptions of the class \<open>Exception\<close>
  only, the call returns, and what it returns is \<open>process_query\<close>.
\<close>

lemma process_query_py_str:
  "process_query_py (py_env env) st (PyStr t) =
     (Inr (fst (process_query env st t)), snd (process_query env st t))"
proof (cases "fst (validate_query t)")
  case False
  then obtain c m where "validate_query t = (False, c, m)"
    by (cases "validate_query t") auto
  then show ?thesis
    by (simp add: process_query_py_def process_query_py_try_def process_query_def
        process_query_try_def py_env_simps)
next
  case True
  note v = validate_accept [OF True]
  show ?thesis
    by (simp add: process_query_py_def process_query_py_try_def process_query_def
        process_query_try_def py_env_simps v analyze_is_valid Let_def
        processing_error_def
        split: option.splits sum.splits)
qed

lemma validate_bounds:
  "length (strip t) < 2 \<or> length t > 500 \<Longrightarrow> \<not> fst (validate_query t)"
  by (auto simp: validate_query_def min_length_def max_length_def)

lemma process_rejected:
  assumes "\<not> fst (validate_query t)"
  shows "fst (process_query env st t) =
     \<lparr> processed_query = invalid_query (PyStr t) [], agent_response = None,
       processing_time_ms = get_elapsed_ms env, success = False,
       error_message = Some (snd (snd (validate_query t))) \<rparr>"
proof -
  obtain v c m where vq: "validate_query t = (v, c, m)" by (cases "validate_query t") auto
  with assms have "\<not> v" by simp
  with vq show ?thesis by (simp add: process_query_def process_query_try_def)
qed

section \<open>Classification\<close>

text \<open>
  C1. Whenever at least one intent pattern matches the lower-cased text, the intent that
  \<open>_determine_query_type\<close> returns is one of the five intents of the table, no intent
  has a greater match count, and every intent with the same match count comes later in
  the order Food, Traffic, Slang, Itinerary, Culture: the first maximum in the order of
  declaration wins.
\<close>

theorem first_maximum_wins:
  assumes "any_match (lower t)"
  shows "fst (determine_query_type (lower t)) \<in> set intents \<and>
    (\<forall>qt\<in>set intents.
       intent_score qt (lower t) \<le> intent_score (fst (determine_query_type (lower t))) (lower t) \<and>
       (intent_score qt (lower t) = intent_score (fst (determine_query_type (lower t))) (lower t)
          \<longrightarrow> priority (fst (determine_query_type (lower t))) \<le> priority qt))"
proof -
  from winner [OF assms] obtain bt where
    "determine_query_type (lower t) =
       (bt, min (9 / 10) (1 / 2 + of_nat (intent_score bt (lower t)) * (2 / 10)))"
    "bt \<in> set intents"
    "\<forall>qt\<in>set intents. intent_score qt (lower t) \<le> intent_score bt (lower t) \<and>
       (intent_score qt (lower t) = intent_score bt (lower t) \<longrightarrow> priority bt \<le> priority qt)"
    by blast
  then show ?thesis by simp
qed

theorem first_maximum_wins_witness:
  "any_match (lower ''Food metro'') \<and>
   fst (determine_query_type (lower ''Food metro'')) \<in> set intents \<and>
   intent_score TRAFFIC (lower ''Food metro'')
     = intent_score (fst (determine_query_type (lower ''Food metro''))) (lower ''Food metro'') \<and>
   priority (fst (determine_query_type (lower ''Food metro''))) \<le> priority TRAFFIC"
proof -
  have h: "any_match (lower ''Food metro'')" by code_simp
  have t: "TRAFFIC \<in> set intents" by (simp add: intents_eq)
  have e: "intent_score TRAFFIC (lower ''Food metro'')
     = intent_score (fst (determine_query_type (lower ''Food metro''))) (lower ''Food metro'')"
    by code_simp
  from first_maximum_wins [OF h] t e h show ?thesis by blast
qed

text \<open>
  C2, as stated, fails in its last part: a pattern matches the text \<open>metro\<close>, the
  validator accepts it, and the result of \<open>process_query\<close> has confidence 0, below 0.5,
  when the agent cannot be initialised: the handler reports the placeholder of an
  invalid query.
\<close>

theorem confidence_floor_fails_on_agent_fault:
  "fst (validate_query ''metro'') \<and>
   any_match (lower (clean_query ''metro'')) \<and>
   confidence (processed_query (fst (process_query env_missing_file False ''metro''))) = 0"
proof -
  have "fst (validate_query ''metro'')" by code_simp
  moreover have "any_match (lower (clean_query ''metro''))" by code_simp
  moreover have
    "confidence (processed_query (fst (process_query env_missing_file False ''metro''))) = 0"
    by code_simp
  ultimately show ?thesis by blast
qed

text \<open>
  C2, amended. No intent has a greater match count than \<open>winning_score\<close>. Whenever at
  least one intent pattern matches, the winning score is positive, it is the match count
  of the intent that the analyzer returns, and the confidence of the analyzer is
  \<open>min(0.9, 0.5 + 0.2 * winning_score)\<close>, hence at least 0.7. For every input, every state
  and every behaviour of the clock and of the agent, the confidence in the result of
  \<open>process_query\<close> lies between 0 and 0.9; it is given by the same formula, and is at
  least 0.5, when a pattern matches the cleaned text, the validator accepts and the
  \<open>try\<close> block raises nothing; it is 0 when the validator rejects or the block raises.
\<close>

theorem confidence_formula_and_bounds:
  "(\<forall>qt. intent_score qt (lower s) \<le> winning_score (lower s)) \<and>
   (any_match (lower s) \<longrightarrow>
      0 < winning_score (lower s) \<and>
      winning_score (lower s) = intent_score (query_type (analyze_query s)) (lower s) \<and>
      confidence (analyze_query s) = min (9 / 10) (1 / 2 + 2 / 10 * of_nat (winning_score (lower s))) \<and>
      7 / 10 \<le> confidence (analyze_query s)) \<and>
   0 \<le> confidence (processed_query (fst (process_query env st t))) \<and>
   confidence (processed_query (fst (process_query env st t))) \<le> 9 / 10 \<and>
   (fst (validate_query t) \<and> \<not> isl (fst (process_query_try env st t)) \<and>
    any_match (lower (clean_query t)) \<longrightarrow>
      confidence (processed_query (fst (process_query env st t))) =
        min (9 / 10) (1 / 2 + 2 / 10 * of_nat (winning_score (lower (clean_query t)))) \<and>
      1 / 2 \<le> confidence (processed_query (fst (process_query env st t)))) \<and>
   (\<not> fst (validate_query t) \<or> isl (fst (process_query_try env st t)) \<longrightarrow>
      confidence (processed_query (fst (process_query env st t))) = 0)"
proof -
  have a: "0 < winning_score (lower u) \<and>
      winning_score (lower u) = intent_score (query_type (analyze_query u)) (lower u) \<and>
      confidence (analyze_query u) = min (9 / 10) (1 / 2 + 2 / 10 * of_nat (winning_score (lower u))) \<and>
      7 / 10 \<le> confidence (analyze_query u)"
    if m: "any_match (lower u)" for u
  proof -
    from winner [OF m] obtain bt where
      dq: "determine_query_type (lower u) =
         (bt, min (9 / 10) (1 / 2 + of_nat (intent_score bt (lower u)) * (2 / 10)))"
      and bt: "bt \<in> set intents" and pos: "0 < intent_score bt (lower u)"
      and mx: "\<forall>qt\<in>set intents. intent_score qt (lower u) \<le> intent_score bt (lower u) \<and>
         (intent_score qt (lower u) = intent_score bt (lower u) \<longrightarrow> priority bt \<le> priority qt)"
      by blast
    from mx have "\<forall>qt\<in>set intents. intent_score qt (lower u) \<le> intent_score bt (lower u)"
      by blast
    with bt have w: "winning_score (lower u) = intent_score bt (lower u)"
      by (rule winning_score_eq)
    from determine_bounds [of "lower u"] m
    have "7 / 10 \<le> snd (determine_query_type (lower u))" by blast
    with w pos dq show ?thesis by (simp add: analyze_confidence mult.commute)
  qed
  have b: "1 / 2 \<le> confidence (analyze_query u) \<and> confidence (analyze_query u) \<le> 9 / 10" for u
    using determine_bounds [of "lower u"] by (simp add: analyze_confidence)
  have c: "0 \<le> confidence (processed_query (fst (process_query env st t))) \<and>
     confidence (processed_query (fst (process_query env st t))) \<le> 9 / 10"
    using b [of "clean_query t"] by (simp add: process_query_shape invalid_query_def)
  have d: "confidence (processed_query (fst (process_query env st t))) =
        min (9 / 10) (1 / 2 + 2 / 10 * of_nat (winning_score (lower (clean_query t)))) \<and>
      1 / 2 \<le> confidence (processed_query (fst (process_query env st t)))"
    if "fst (validate_query t)" "\<not> isl (fst (process_query_try env st t))"
       "any_match (lower (clean_query t))"
    using that a [of "clean_query t"] b [of "clean_query t"] by (simp add: process_query_shape)
  have e: "confidence (processed_query (fst (process_query env st t))) = 0"
    if "\<not> fst (validate_query t) \<or> isl (fst (process_query_try env st t))"
    using that by (auto simp: process_query_shape invalid_query_def)
  from winning_score_upper a [of s] c d e show ?thesis by blast
qed

theorem confidence_formula_and_bounds_witness:
  "any_match (lower ''Food metro'') \<and>
   0 < winning_score (lower ''Food metro'') \<and>
   winning_score (lower ''Food metro'') =
     intent_score (query_type (analyze_query ''Food metro'')) (lower ''Food metro'') \<and>
   confidence (analyze_query ''Food metro'') =
     min (9 / 10) (1 / 2 + 2 / 10 * of_nat (winning_score (lower ''Food metro''))) \<and>
   7 / 10 \<le> confidence (analyze_query ''Food metro'') \<and>
   fst (validate_query ''Food metro'') \<and>
   \<not> isl (fst (process_query_try env0 False ''Food metro'')) \<and>
   any_match (lower (clean_query ''Food metro'')) \<and>
   confidence (processed_query (fst (process_query env0 False ''Food metro''))) =
     min (9 / 10) (1 / 2 + 2 / 10 * of_nat (winning_score (lower (clean_query ''Food metro'')))) \<and>
   1 / 2 \<le> confidence (processed_query (fst (process_query env0 False ''Food metro''))) \<and>
   confidence (processed_query (fst (process_query env0 False ''Food metro''))) \<le> 9 / 10 \<and>
   isl (fst (process_query_try env_missing_file False ''metro'')) \<and>
   confidence (processed_query (fst (process_query env_missing_file False ''metro''))) = 0"
proof -
  have h1: "any_match (lower ''Food metro'')" by code_simp
  have h2: "fst (validate_query ''Food metro'')" by code_simp
  have h3: "\<not> isl (fst (process_query_try env0 False ''Food metro''))" by code_simp
  have h4: "any_match (lower (clean_query ''Food metro''))" by code_simp
  have h5: "isl (fst (process_query_try env_missing_file False ''metro''))" by code_simp
  from confidence_formula_and_bounds [of "''Food metro''" env0 False "''Food metro''"]
    confidence_formula_and_bounds [of "''metro''" env_missing_file False "''metro''"]
    h1 h2 h3 h4 h5
  show ?thesis by blast
qed

text \<open>
  C3. When the validator accepts a text and no intent pattern matches the cleaned text,
  the analyzer returns the intent General with confidence 0.5, and so does every run of
  \<open>process_query\<close> whose \<open>try\<close> block raises nothing.
\<close>

theorem no_match_is_general:
  assumes "fst (validate_query t)" and "\<not> any_match (lower (clean_query t))"
  shows "query_type (analyze_query (fst (snd (validate_query t)))) = GENERAL \<and>
    confidence (analyze_query (fst (snd (validate_query t)))) = 1 / 2 \<and>
    (\<not> isl (fst (process_query_try env st t)) \<longrightarrow>
       query_type (processed_query (fst (process_query env st t))) = GENERAL \<and>
       confidence (processed_query (fst (process_query env st t))) = 1 / 2)"
  using assms
  by (simp add: validate_accept process_query_shape analyze_confidence no_match_general)

theorem no_match_is_general_witness:
  "fst (validate_query ''Hello  there'') \<and> \<not> any_match (lower (clean_query ''Hello  there'')) \<and>
   query_type (analyze_query (fst (snd (validate_query ''Hello  there'')))) = GENERAL \<and>
   confidence (analyze_query (fst (snd (validate_query ''Hello  there'')))) = 1 / 2 \<and>
   \<not> isl (fst (process_query_try env0 False ''Hello  there'')) \<and>
   query_type (processed_query (fst (process_query env0 False ''Hello  there''))) = GENERAL \<and>
   confidence (processed_query (fst (process_query env0 False ''Hello  there''))) = 1 / 2"
proof -
  have h1: "fst (validate_query ''Hello  there'')" by code_simp
  have h2: "\<not> any_match (lower (clean_query ''Hello  there''))" by code_simp
  have h3: "\<not> isl (fst (process_query_try env0 False ''Hello  there''))" by code_simp
  from no_match_is_general [OF h1 h2, of env0 False] h1 h2 h3 show ?thesis by blast
qed


section \<open>The orchestrator\<close>

text \<open>
  C4. An input whose trimmed length is below 2 or whose length exceeds 500 is answered
  with \<open>success = False\<close>; and whenever the validator rejects, the result carries the
  intent Invalid, confidence 0, no keywords, no time and no location context, and the
  validator's own message as error message.
\<close>

theorem rejected_input:
  "(length (strip t) < 2 \<or> length t > 500 \<longrightarrow> \<not> success (fst (process_query env st t))) \<and>
   (\<not> fst (validate_query t) \<longrightarrow>
      \<not> success (fst (process_query env st t)) \<and>
      query_type (processed_query (fst (process_query env st t))) = INVALID \<and>
      confidence (processed_query (fst (process_query env st t))) = 0 \<and>
      key_words (processed_query (fst (process_query env st t))) = [] \<and>
      time_context (processed_query (fst (process_query env st t))) = None \<and>
      location_context (processed_query (fst (process_query env st t))) = None \<and>
      error_message (fst (process_query env st t)) = Some (snd (snd (validate_query t))))"
  using validate_bounds [of t] by (auto simp: process_rejected invalid_query_def)

theorem rejected_input_witness:
  "length (strip ''a '') < 2 \<and> \<not> fst (validate_query ''a '') \<and>
   \<not> success (fst (process_query env0 False ''a '')) \<and>
   query_type (processed_query (fst (process_query env0 False ''a ''))) = INVALID \<and>
   confidence (processed_query (fst (process_query env0 False ''a ''))) = 0 \<and>
   key_words (processed_query (fst (process_query env0 False ''a ''))) = [] \<and>
   time_context (processed_query (fst (process_query env0 False ''a ''))) = None \<and>
   location_context (processed_query (fst (process_query env0 False ''a ''))) = None \<and>
   error_message (fst (process_query env0 False ''a '')) = Some ''Query too short (minimum 2 characters)''"
proof -
  have h1: "length (strip ''a '') < 2" by code_simp
  have h2: "\<not> fst (validate_query ''a '')" by code_simp
  have h3: "snd (snd (validate_query ''a '')) = ''Query too short (minimum 2 characters)''"
    by code_simp
  from rejected_input [of "''a ''" env0 False] h1 h2 h3 show ?thesis by simp
qed

text \<open>
  C8. \<open>process_query\<close>, called with any value and with an agent manager that may raise
  anything, never raises an exception of the class \<open>Exception\<close>: what leaves the function
  is a \<open>KeyboardInterrupt\<close> or \<open>SystemExit\<close> that the agent manager raised, and nothing
  else. So when the agent manager raises exceptions of the class \<open>Exception\<close> only, as
  all \<open>raise\<close> statements of the repository do, every call returns a result, and the
  result is a success or carries an error message. Each fault inside the \<open>try\<close> block
  becomes a result with \<open>success = False\<close> and the message \<open>Processing error: ...\<close>: the
  \<open>AttributeError\<close> of the validator on an argument that is not a string, where
  \<open>cleaned_text\<close> is not yet bound and the result has the empty text; the exception of
  \<open>initialize_agent\<close>, after which the agent counts as not initialised; and the exception
  of \<open>process_user_query\<close>.
\<close>

theorem faults_become_results:
  "(\<forall>e. fst (process_query_py env st v) \<noteq> Inl (IsException e)) \<and>
   (\<forall>x. fst (process_query_py env st v) = Inl x \<longrightarrow>
      \<not> is_exception x \<and>
      (py_initialize_agent env = Some x \<or> (\<exists>q. py_process_user_query env q = Inl x))) \<and>
   ((\<forall>x. py_initialize_agent env = Some x \<longrightarrow> is_exception x) \<and>
    (\<forall>q x. py_process_user_query env q = Inl x \<longrightarrow> is_exception x) \<longrightarrow>
      (\<exists>r. fst (process_query_py env st v) = Inr r \<and> (success r \<or> error_message r \<noteq> None))) \<and>
   (\<forall>e. validate_query_py v = Inl (IsException e) \<longrightarrow>
      process_query_py env st v = (Inr (processing_error env v None e), st)) \<and>
   (\<forall>t e. v = PyStr t \<and> fst (validate_query t) \<and> \<not> st \<and>
      py_initialize_agent env = Some (IsException e) \<longrightarrow>
      process_query_py env st v = (Inr (processing_error env v (Some (clean_query t)) e), False)) \<and>
   (\<forall>t e. v = PyStr t \<and> fst (validate_query t) \<and> (st \<or> py_initialize_agent env = None) \<and>
      py_process_user_query env (clean_query t) = Inl (IsException e) \<longrightarrow>
      process_query_py env st v = (Inr (processing_error env v (Some (clean_query t)) e), True)) \<and>
   (\<forall>c e. \<not> success (processing_error env v c e) \<and>
      error_message (processing_error env v c e) = Some (''Processing error: '' @ exception_str e) \<and>
      agent_response (processing_error env v c e) = None \<and>
      processed_query (processing_error env v c e) =
        invalid_query v (case c of Some cleaned \<Rightarrow> cleaned | None \<Rightarrow> []))"
proof -
  have p1: "\<not> is_exception x \<and>
      (py_initialize_agent env = Some x \<or> (\<exists>q. py_process_user_query env q = Inl x))"
    if "fst (process_query_py env st v) = Inl x" for x
    using that py_try_raises [of env st v]
    by (cases "process_query_py_try env st v")
       (auto simp: process_query_py_def split: sum.splits py_base_exception.splits)
  have p2: "fst (process_query_py env st v) \<noteq> Inl (IsException e)" for e
    using p1 [of "IsException e"] by auto
  have p3: "\<exists>r. fst (process_query_py env st v) = Inr r \<and> (success r \<or> error_message r \<noteq> None)"
    if h: "\<forall>x. py_initialize_agent env = Some x \<longrightarrow> is_exception x"
       "\<forall>q x. py_process_user_query env q = Inl x \<longrightarrow> is_exception x"
  proof (cases "fst (process_query_py env st v)")
    case (Inl x)
    from p1 [OF Inl] h show ?thesis by blast
  next
    case (Inr r)
    with py_try_returns [of env st v] show ?thesis
      by (cases "process_query_py_try env st v")
         (auto simp: process_query_py_def processing_error_def
               split: sum.splits py_base_exception.splits)
  qed
  have p4: "process_query_py env st v = (Inr (processing_error env v None e), st)"
    if "validate_query_py v = Inl (IsException e)" for e
    using that by (simp add: process_query_py_def process_query_py_try_def)
  have p5: "process_query_py env st v = (Inr (processing_error env v (Some (clean_query t)) e), False)"
    if "v = PyStr t \<and> fst (validate_query t) \<and> \<not> st \<and>
      py_initialize_agent env = Some (IsException e)" for t e
    using that
    by (simp add: process_query_py_def process_query_py_try_def validate_accept
        analyze_is_valid Let_def)
  have p6: "process_query_py env st v = (Inr (processing_error env v (Some (clean_query t)) e), True)"
    if "v = PyStr t \<and> fst (validate_query t) \<and> (st \<or> py_initialize_agent env = None) \<and>
      py_process_user_query env (clean_query t) = Inl (IsException e)" for t e
    using that
    by (auto simp: process_query_py_def process_query_py_try_def validate_accept
        analyze_is_valid Let_def)
  have p7: "\<not> success (processing_error env v c e) \<and>
      error_message (processing_error env v c e) = Some (''Processing error: '' @ exception_str e) \<and>
      agent_response (processing_error env v c e) = None \<and>
      processed_query (processing_error env v c e) =
        invalid_query v (case c of Some cleaned \<Rightarrow> cleaned | None \<Rightarrow> [])" for c e
    by (simp add: processing_error_def)
  from p1 p2 p3 p4 p5 p6 p7 show ?thesis by blast
qed

theorem faults_become_results_witness:
  "validate_query_py (PyInt 7) = Inl (IsException (no_attribute ''int'' ''strip'')) \<and>
   process_query_py (py_env env0) False (PyInt 7) =
     (Inr (processing_error (py_env env0) (PyInt 7) None (no_attribute ''int'' ''strip'')), False) \<and>
   fst (validate_query ''metro'') \<and> clean_query ''metro'' = ''metro'' \<and>
   py_initialize_agent (py_env env_missing_file) =
     Some (IsException (FileNotFoundError ''Product file not found'')) \<and>
   process_query_py (py_env env_missing_file) False (PyStr ''metro'') =
     (Inr (processing_error (py_env env_missing_file) (PyStr ''metro'') (Some ''metro'')
        (FileNotFoundError ''Product file not found'')), False) \<and>
   py_initialize_agent (py_env env_no_answer) = None \<and>
   py_process_user_query (py_env env_no_answer) ''metro'' =
     Inl (IsException (RuntimeError ''Agent not initialized. Call initialize_agent() first.'')) \<and>
   process_query_py (py_env env_no_answer) False (PyStr ''metro'') =
     (Inr (processing_error (py_env env_no_answer) (PyStr ''metro'') (Some ''metro'')
        (RuntimeError ''Agent not initialized. Call initialize_agent() first.'')), True) \<and>
   error_message (processing_error (py_env env_no_answer) (PyStr ''metro'') (Some ''metro'')
        (RuntimeError ''Agent not initialized. Call initialize_agent() first.'')) =
     Some ''Processing error: Agent not initialized. Call initialize_agent() first.'' \<and>
   (\<exists>r. fst (process_query_py (py_env env0) False PyNone) = Inr r \<and>
      (success r \<or> error_message r \<noteq> None))"
proof -
  have h1: "validate_query_py (PyInt 7) = Inl (IsException (no_attribute ''int'' ''strip''))"
    by simp
  have h2: "fst (validate_query ''metro'')" by code_simp
  have h3: "clean_query ''metro'' = ''metro''" by code_simp
  have h4: "py_initialize_agent (py_env env_missing_file) =
     Some (IsException (FileNotFoundError ''Product file not found''))"
    by (simp add: py_env_def env_missing_file_def)
  have h5: "py_initialize_agent (py_env env_no_answer) = None"
    by (simp add: py_env_def env_no_answer_def)
  have h6: "py_process_user_query (py_env env_no_answer) ''metro'' =
     Inl (IsException (RuntimeError ''Agent not initialized. Call initialize_agent() first.''))"
    by (simp add: py_env_def env_no_answer_def)
  have h7: "(\<forall>x. py_initialize_agent (py_env env0) = Some x \<longrightarrow> is_exception x) \<and>
    (\<forall>q x. py_process_user_query (py_env env0) q = Inl x \<longrightarrow> is_exception x)"
    by (simp add: py_env_def env0_def)
  from faults_become_results [of "py_env env0" False "PyInt 7"] h1
  have r1: "process_query_py (py_env env0) False (PyInt 7) =
     (Inr (processing_error (py_env env0) (PyInt 7) None (no_attribute ''int'' ''strip'')), False)"
    by blast
  from faults_become_results [of "py_env env_missing_file" False "PyStr ''metro''"] h2 h4
  have "process_query_py (py_env env_missing_file) False (PyStr ''metro'') =
     (Inr (processing_error (py_env env_missing_file) (PyStr ''metro'') (Some (clean_query ''metro''))
        (FileNotFoundError ''Product file not found'')), False)"
    by blast
  then have r2: "process_query_py (py_env env_missing_file) False (PyStr ''metro'') =
     (Inr (processing_error (py_env env_missing_file) (PyStr ''metro'') (Some ''metro'')
        (FileNotFoundError ''Product file not found'')), False)"
    by (simp only: h3)
  from h6 have h6': "py_process_user_query (py_env env_no_answer) (clean_query ''metro'') =
     Inl (IsException (RuntimeError ''Agent not initialized. Call initialize_agent() first.''))"
    by (simp only: h3)
  from faults_become_results [of "py_env env_no_answer" False "PyStr ''metro''"] h2 h5 h6'
  have "process_query_py (py_env env_no_answer) False (PyStr ''metro'') =
     (Inr (processing_error (py_env env_no_answer) (PyStr ''metro'') (Some (clean_query ''metro''))
        (RuntimeError ''Agent not initialized. Call initialize_agent() first.'')), True)"
    by blast
  then have r3: "process_query_py (py_env env_no_answer) False (PyStr ''metro'') =
     (Inr (processing_error (py_env env_no_answer) (PyStr ''metro'') (Some ''metro'')
        (RuntimeError ''Agent not initialized. Call initialize_agent() first.'')), True)"
    by (simp only: h3)
  from faults_become_results [of "py_env env_no_answer" False "PyStr ''metro''"]
  have r4: "error_message (processing_error (py_env env_no_answer) (PyStr ''metro'') (Some ''metro'')
        (RuntimeError ''Agent not initialized. Call initialize_agent() first.'')) =
     Some (''Processing error: '' @
       exception_str (RuntimeError ''Agent not initialized. Call initialize_agent() first.''))"
    by blast
  from faults_become_results [of "py_env env0" False PyNone] h7
  have r5: "\<exists>r. fst (process_query_py (py_env env0) False PyNone) = Inr r \<and>
      (success r \<or> error_message r \<noteq> None)"
    by blast
  from h1 r1 h2 h3 h4 r2 h5 h6 r3 r4 r5 show ?thesis by simp
qed



text \<open>
  C9. Two invocations of \<open>process_query\<close> on the same text, with the same agent manager
  and any two readings of the clock, return the same processed query: the same intent,
  confidence, keywords, time and location context. This holds of two invocations from
  the same state of the flag \<open>_agent_initialized\<close>, and of an invocation and the one that
  follows it on the same processor, which finds the flag as the first has left it and
  leaves it so. The whole results differ in \<open>processing_time_ms\<close> at most.
\<close>

theorem process_query_deterministic:
  assumes "initialize_agent env2 = initialize_agent env1"
    and "process_user_query env2 = process_user_query env1"
  shows "processed_query (fst (process_query env2 st t)) =
      processed_query (fst (process_query env1 st t)) \<and>
    fst (process_query env2 st t) =
      (fst (process_query env1 st t)) \<lparr> processing_time_ms := get_elapsed_ms env2 \<rparr> \<and>
    processed_query (fst (process_query env2 (snd (process_query env1 st t)) t)) =
      processed_query (fst (process_query env1 st t)) \<and>
    fst (process_query env2 (snd (process_query env1 st t)) t) =
      (fst (process_query env1 st t)) \<lparr> processing_time_ms := get_elapsed_ms env2 \<rparr> \<and>
    snd (process_query env2 (snd (process_query env1 st t)) t) = snd (process_query env1 st t)"
proof -
  have same: "fst (process_query env2 st t) =
      (fst (process_query env1 st t)) \<lparr> processing_time_ms := get_elapsed_ms env2 \<rparr>"
  proof (cases "fst (validate_query t)")
    case False
    then show ?thesis by (simp add: process_rejected)
  next
    case True
    note v = validate_accept [OF True]
    show ?thesis using assms
      by (simp add: process_query_def process_query_try_def v analyze_is_valid Let_def
          split: option.splits sum.splits)
  qed
  have next_result: "fst (process_query env2 (snd (process_query env1 st t)) t) =
      (fst (process_query env1 st t)) \<lparr> processing_time_ms := get_elapsed_ms env2 \<rparr>"
  proof (cases "fst (validate_query t)")
    case False
    then show ?thesis by (simp add: process_rejected)
  next
    case True
    note v = validate_accept [OF True]
    show ?thesis using assms
      by (simp add: process_query_def process_query_try_def v analyze_is_valid Let_def
          split: option.splits sum.splits)
  qed
  have next_state: "snd (process_query env2 (snd (process_query env1 st t)) t) =
      snd (process_query env1 st t)"
  proof (cases "fst (validate_query t)")
    case False
    then obtain c m where "validate_query t = (False, c, m)"
      by (cases "validate_query t") auto
    then show ?thesis by (simp add: process_query_def process_query_try_def)
  next
    case True
    note v = validate_accept [OF True]
    show ?thesis using assms
      by (simp add: process_query_def process_query_try_def v analyze_is_valid Let_def
          split: option.splits sum.splits)
  qed
  from same have "processed_query (fst (process_query env2 st t)) =
      processed_query (fst (process_query env1 st t))" by simp
  moreover from next_result
  have "processed_query (fst (process_query env2 (snd (process_query env1 st t)) t)) =
      processed_query (fst (process_query env1 st t))" by simp
  ultimately show ?thesis using same next_result next_state by blast
qed

theorem process_query_deterministic_witness:
  "initialize_agent env_later = initialize_agent env0 \<and>
   process_user_query env_later = process_user_query env0 \<and>
   processed_query (fst (process_query env_later False ''Food metro'')) =
     processed_query (fst (process_query env0 False ''Food metro'')) \<and>
   processed_query
       (fst (process_query env_later (snd (process_query env0 False ''Food metro'')) ''Food metro'')) =
     processed_query (fst (process_query env0 False ''Food metro'')) \<and>
   snd (process_query env_later (snd (process_query env0 False ''Food metro'')) ''Food metro'') =
     snd (process_query env0 False ''Food metro'') \<and>
   query_type (processed_query (fst (process_query env0 False ''Food metro''))) = FOOD \<and>
   processing_time_ms (fst (process_query env0 False ''Food metro'')) = 1 \<and>
   processing_time_ms (fst (process_query env_later False ''Food metro'')) = 2000"
proof -
  have h: "initialize_agent env_later = initialize_agent env0"
    "process_user_query env_later = process_user_query env0"
    by (simp_all add: env_later_def)
  have q: "query_type (processed_query (fst (process_query env0 False ''Food metro''))) = FOOD"
    by code_simp
  have t1: "processing_time_ms (fst (process_query env0 False ''Food metro'')) = 1"
    by code_simp
  have t2: "get_elapsed_ms env_later = 2000"
    by (simp add: get_elapsed_ms_def env_later_def env0_def)
  from process_query_deterministic [OF h, of False "''Food metro''"]
  have r: "processed_query (fst (process_query env_later False ''Food metro'')) =
     processed_query (fst (process_query env0 False ''Food metro'')) \<and>
   fst (process_query env_later False ''Food metro'') =
     (fst (process_query env0 False ''Food metro'')) \<lparr> processing_time_ms := get_elapsed_ms env_later \<rparr> \<and>
   processed_query
       (fst (process_query env_later (snd (process_query env0 False ''Food metro'')) ''Food metro'')) =
     processed_query (fst (process_query env0 False ''Food metro'')) \<and>
   snd (process_query env_later (snd (process_query env0 False ''Food metro'')) ''Food metro'') =
     snd (process_query env0 False ''Food metro'')"
    by blast
  then have "processing_time_ms (fst (process_query env_later False ''Food metro'')) =
     get_elapsed_ms env_later" by simp
  with t2 have t3: "processing_time_ms (fst (process_query env_later False ''Food metro'')) = 2000"
    by simp
  from h q t1 t3 r show ?thesis by blast
qed


section \<open>The sanitizer\<close>

lemma is_space_blank: "is_space CHR '' ''"
  by (simp add: is_space_def)

lemma not_harmful_blank: "\<not> harmful CHR '' ''"
  by (simp add: harmful_def)

lemma strip_decomp: "\<exists>w. dropWhile is_space s = strip s @ w"
proof -
  have "rev (dropWhile is_space s) =
      takeWhile is_space (rev (dropWhile is_space s)) @
      dropWhile is_space (rev (dropWhile is_space s))" by simp
  then have "dropWhile is_space s =
      strip s @ rev (takeWhile is_space (rev (dropWhile is_space s)))"
    unfolding strip_def by (metis rev_append rev_rev_ident)
  then show ?thesis ..
qed

lemma trimmed_strip: "trimmed (strip s)"
proof (cases "strip s = []")
  case True
  then show ?thesis by (simp add: trimmed_def)
next
  case False
  from strip_decomp obtain w where w: "dropWhile is_space s = strip s @ w" by blast
  with False have "hd (dropWhile is_space s) = hd (strip s)" by simp
  moreover from w False have "dropWhile is_space s \<noteq> []" by simp
  ultimately have h: "\<not> is_space (hd (strip s))" using hd_dropWhile by metis
  let ?d = "dropWhile is_space (rev (dropWhile is_space s))"
  from False have "?d \<noteq> []" by (simp add: strip_def)
  then have "\<not> is_space (hd ?d)" by (rule hd_dropWhile)
  moreover have "last (strip s) = hd ?d"
    using \<open>?d \<noteq> []\<close> by (simp add: strip_def last_rev)
  ultimately show ?thesis using h by (simp add: trimmed_def)
qed

lemma strip_trimmed: "trimmed s \<Longrightarrow> strip s = s"
proof (cases s)
  case Nil
  then show ?thesis by (simp add: strip_def)
next
  case (Cons c cs)
  assume "trimmed s"
  with Cons have a: "\<not> is_space (hd s)" and b: "\<not> is_space (last s)"
    by (simp_all add: trimmed_def)
  from a Cons have "dropWhile is_space s = s" by simp
  moreover have "dropWhile is_space (rev s) = rev s"
  proof -
    from Cons obtain x xs where r: "rev s = x # xs" by (cases "rev s") auto
    from Cons have "hd (rev s) = last s" by (simp add: hd_rev)
    with r b have "\<not> is_space x" by simp
    then show ?thesis by (simp add: r)
  qed
  ultimately show ?thesis by (simp add: strip_def)
qed

lemma collapse_ws_hd:
  "s \<noteq> [] \<Longrightarrow> \<not> is_space (hd s) \<Longrightarrow>
   collapse_ws s \<noteq> [] \<and> \<not> is_space (hd (collapse_ws s))"
  by (cases s) auto

lemma collapse_ws_last:
  "s \<noteq> [] \<Longrightarrow> \<not> is_space (last s) \<Longrightarrow>
   collapse_ws s \<noteq> [] \<and> \<not> is_space (last (collapse_ws s))"
proof (induction s rule: collapse_ws.induct)
  case 1
  then show ?case by simp
next
  case (2 c cs)
  show ?case
  proof (cases "is_space c")
    case True
    with 2 have cs: "cs \<noteq> []" "\<not> is_space (last cs)" by (auto split: if_splits)
    then have "last cs \<in> set cs" by simp
    with cs have d: "dropWhile is_space cs \<noteq> []"
      by (metis dropWhile_eq_Nil_conv)
    then have "last (dropWhile is_space cs) = last cs"
      by (metis append_Nil2 last_appendR takeWhile_dropWhile_id)
    with 2 True d cs show ?thesis by simp
  next
    case False
    with 2 show ?thesis by (cases cs) (auto split: if_splits)
  qed
qed

lemma trimmed_collapse_ws: "trimmed s \<Longrightarrow> trimmed (collapse_ws s)"
proof (cases "s = []")
  case True
  then show ?thesis by (simp add: trimmed_def)
next
  case False
  assume "trimmed s"
  with False have "\<not> is_space (hd s)" "\<not> is_space (last s)" by (simp_all add: trimmed_def)
  with False collapse_ws_hd [of s] collapse_ws_last [of s] show ?thesis
    by (simp add: trimmed_def)
qed

lemma squeezed_collapse_ws: "squeezed (collapse_ws s)"
proof (induction s rule: collapse_ws.induct)
  case 1
  show ?case by simp
next
  case (2 c cs)
  show ?case
  proof (cases "is_space c")
    case True
    let ?d = "dropWhile is_space cs"
    have "case collapse_ws ?d of [] \<Rightarrow> True | d # _ \<Rightarrow> \<not> is_space d"
    proof (cases "?d = []")
      case True
      then have "collapse_ws ?d = collapse_ws []" by (rule arg_cong)
      then show ?thesis by simp
    next
      case False
      then have "\<not> is_space (hd ?d)" by (rule hd_dropWhile)
      with False collapse_ws_hd [of ?d] show ?thesis
        by (cases "collapse_ws ?d") auto
    qed
    with 2 True show ?thesis by (simp add: is_space_blank)
  next
    case False
    with 2 show ?thesis by simp
  qed
qed

lemma collapse_ws_squeezed: "squeezed s \<Longrightarrow> collapse_ws s = s"
proof (induction s)
  case Nil
  show ?case by simp
next
  case (Cons c cs)
  show ?case
  proof (cases "is_space c")
    case True
    with Cons.prems have c: "c = CHR '' ''" and "dropWhile is_space cs = cs"
      by (cases cs; simp)+
    with Cons True show ?thesis by simp
  next
    case False
    with Cons show ?thesis by simp
  qed
qed

lemma set_collapse_ws: "set (collapse_ws s) \<subseteq> insert CHR '' '' (set s)"
proof (induction s rule: collapse_ws.induct)
  case 1
  show ?case by simp
next
  case (2 c cs)
  have "set (dropWhile is_space cs) \<subseteq> set cs" by (rule set_dropWhileD [THEN subsetI])
  with 2 show ?case by (cases "is_space c") auto
qed

lemma set_strip: "set (strip s) \<subseteq> set s"
proof -
  have "set (strip s) \<subseteq> set (dropWhile is_space s)"
    unfolding strip_def using set_dropWhileD by fastforce
  also have "\<dots> \<subseteq> set s" using set_dropWhileD by fastforce
  finally show ?thesis .
qed

lemma clean_query_harmless:
  assumes "\<forall>c\<in>set t. \<not> harmful c"
  shows "clean_query t = collapse_ws (strip t)"
proof -
  have "\<forall>c\<in>set (collapse_ws (strip t)). \<not> harmful c"
    using assms set_collapse_ws [of "strip t"] set_strip [of t] not_harmful_blank by blast
  then show ?thesis by (simp add: clean_query_def Let_def)
qed

text \<open>
  On a text without the characters \<open><\<close>, \<open>>\<close>, \<open>{\<close>, \<open>}\<close> the sanitizer returns a
  text in normal form, which a second pass leaves as it is.
\<close>

lemma clean_query_fixed:
  assumes "\<forall>c\<in>set t. \<not> harmful c"
  shows "clean_query (clean_query t) = clean_query t"
proof -
  let ?n = "collapse_ws (strip t)"
  have n: "clean_query t = ?n" by (rule clean_query_harmless [OF assms])
  have h: "\<forall>c\<in>set ?n. \<not> harmful c"
    using assms set_collapse_ws [of "strip t"] set_strip [of t] not_harmful_blank by blast
  have "trimmed ?n" by (rule trimmed_collapse_ws [OF trimmed_strip])
  then have "strip ?n = ?n" by (rule strip_trimmed)
  moreover have "collapse_ws ?n = ?n" by (rule collapse_ws_squeezed [OF squeezed_collapse_ws])
  ultimately have "clean_query ?n = ?n" by (simp add: clean_query_harmless [OF h])
  with n show ?thesis by simp
qed

text \<open>
  C7. The sanitizer is not idempotent. It collapses the whitespace and trims the ends
  first and deletes \<open><\<close>, \<open>>\<close>, \<open>{\<close>, \<open>}\<close> afterwards, so that what the deletion
  uncovers stays: from \<open>a < b\<close> it makes \<open>a  b\<close> with two blanks, from \<open>< a\<close> the text
  \<open> a\<close> with a blank in front. A second pass removes them.
\<close>

theorem sanitize_not_idempotent:
  "clean_query ''a < b'' = ''a  b'' \<and>
   clean_query (clean_query ''a < b'') = ''a b'' \<and>
   clean_query ''< a'' = '' a'' \<and>
   clean_query (clean_query ''< a'') = ''a'' \<and>
   clean_query (clean_query ''a < b'') \<noteq> clean_query ''a < b''"
proof -
  have "clean_query ''a < b'' = ''a  b''" by code_simp
  moreover have "clean_query (clean_query ''a < b'') = ''a b''" by code_simp
  moreover have "clean_query ''< a'' = '' a''" by code_simp
  moreover have "clean_query (clean_query ''< a'') = ''a''" by code_simp
  moreover have "clean_query (clean_query ''a < b'') \<noteq> clean_query ''a < b''" by code_simp
  ultimately show ?thesis by blast
qed

section \<open>Time slots\<close>

lemma search_from_append:
  "ends r (if pre = [] then p else Some (last pre)) s \<noteq> [] \<Longrightarrow> search_from r p (pre @ s)"
proof (induction pre arbitrary: p)
  case Nil
  then show ?case by (cases s) simp_all
next
  case (Cons x pre)
  from Cons.prems have "ends r (if pre = [] then Some x else Some (last pre)) s \<noteq> []"
    by (simp split: if_splits)
  from Cons.IH [OF this] show ?case by simp
qed

lemma re_search_inside:
  "ends r (if pre = [] then None else Some (last pre)) s \<noteq> [] \<Longrightarrow> re_search r (pre @ s)"
  unfolding re_search_def by (rule search_from_append)

lemma word_after:
  "post = [] \<or> \<not> is_word (hd post) \<Longrightarrow> is_word c \<Longrightarrow> at_boundary (Some c) post"
  by (cases post) (auto simp: at_boundary_def)

lemma word_before:
  "pre = [] \<or> \<not> is_word (last pre) \<Longrightarrow> is_word c \<Longrightarrow>
   at_boundary (if pre = [] then None else Some (last pre)) (c # s)"
  by (auto simp: at_boundary_def)

lemma is_word_digits_m:
  "is_word CHR ''m''" "is_word CHR ''6''" "is_word CHR ''7''" "is_word CHR ''8''"
  "is_word CHR ''9''" "is_word CHR ''1''"
  by (simp_all add: is_word_def)

lemma evening_hours:
  assumes "h \<in> {''6pm'', ''7pm'', ''8pm'', ''9pm''}"
    and "pre = [] \<or> \<not> is_word (last pre)"
    and "post = [] \<or> \<not> is_word (hd post)"
  shows "mentions ''evening'' (pre @ h @ post)"
proof -
  note b = word_before [OF assms(2)] word_after [OF assms(3)] is_word_digits_m
  have "ends (whole_word (map lit [''evening'', ''dinner'', ''6pm'', ''7pm'', ''8pm'',
         ''9pm'', ''night''])) (if pre = [] then None else Some (last pre)) (h @ post) \<noteq> []"
    using assms(1) by (elim insertE) (simp_all add: whole_word_def b lower_char_def)
  then have "re_search (whole_word (map lit [''evening'', ''dinner'', ''6pm'', ''7pm'', ''8pm'',
         ''9pm'', ''night''])) (pre @ h @ post)"
    by (rule re_search_inside)
  then show ?thesis by (simp add: mentions_def time_patterns_def)
qed

lemma noon_hour:
  assumes "pre = [] \<or> \<not> is_word (last pre)"
    and "post = [] \<or> \<not> is_word (hd post)"
  shows "mentions ''afternoon'' (pre @ ''12pm'' @ post)"
proof -
  note b = word_before [OF assms(1)] word_after [OF assms(2)] is_word_digits_m
  have "ends (whole_word (map lit [''afternoon'', ''lunch'', ''12pm'', ''1pm'', ''2pm'',
         ''3pm'', ''noon''])) (if pre = [] then None else Some (last pre)) (''12pm'' @ post) \<noteq> []"
    by (simp add: whole_word_def b lower_char_def)
  then have "re_search (whole_word (map lit [''afternoon'', ''lunch'', ''12pm'', ''1pm'', ''2pm'',
         ''3pm'', ''noon''])) (pre @ ''12pm'' @ post)"
    by (rule re_search_inside)
  then show ?thesis by (simp add: mentions_def time_patterns_def)
qed

lemma extract_time_context_cases:
  "extract_time_context q =
     (if mentions ''morning'' q then Some ''morning''
      else if mentions ''afternoon'' q then Some ''afternoon''
      else if mentions ''evening'' q then Some ''evening'' else None)"
  by (simp add: extract_time_context_def mentions_def time_patterns_def)

text \<open>
  C5. The validator accepts \<open>Traffic at Silk Board at 6 PM\<close> unchanged, and the analyzer
  gives the intent Traffic and the location \<open>silk_board\<close>, with no time context: the
  evening table knows \<open>6pm\<close>, not \<open>6 pm\<close>.
\<close>

theorem silk_board_at_6_pm:
  "validate_query ''Traffic at Silk Board at 6 PM'' =
     (True, ''Traffic at Silk Board at 6 PM'', []) \<and>
   analyze_query ''Traffic at Silk Board at 6 PM'' =
     \<lparr> original_text = PyStr ''Traffic at Silk Board at 6 PM'',
       cleaned_text = ''Traffic at Silk Board at 6 PM'',
       query_type = TRAFFIC,
       key_words = [''traffic'', ''silk'', ''board''],
       time_context = None,
       location_context = Some ''silk_board'',
       confidence = 9 / 10,
       is_valid = True \<rparr>"
  by code_simp

text \<open>
  C6, as stated, fails: \<open>12pm\<close> belongs to the afternoon table, and a word of the
  morning table wins over \<open>7pm\<close>, the morning table being tried first.
\<close>

theorem explicit_pm_rule_absent:
  "extract_time_context ''meet at 12pm'' = Some ''afternoon'' \<and>
   extract_time_context ''breakfast at 7pm'' = Some ''morning''"
  by code_simp

text \<open>
  C6, amended. The tables are tried in the order morning, afternoon, evening and the
  first one found in the text gives the time context; none found gives no time context.
  A text in which \<open>6pm\<close>, \<open>7pm\<close>, \<open>8pm\<close> or \<open>9pm\<close> stands as a word of its own
  mentions the evening, and one with \<open>12pm\<close> mentions the afternoon.
\<close>

theorem first_period_table_wins:
  "(mentions ''morning'' q \<longrightarrow> extract_time_context q = Some ''morning'') \<and>
   (\<not> mentions ''morning'' q \<and> mentions ''afternoon'' q \<longrightarrow>
      extract_time_context q = Some ''afternoon'') \<and>
   (\<not> mentions ''morning'' q \<and> \<not> mentions ''afternoon'' q \<and> mentions ''evening'' q \<longrightarrow>
      extract_time_context q = Some ''evening'') \<and>
   (\<not> mentions ''morning'' q \<and> \<not> mentions ''afternoon'' q \<and> \<not> mentions ''evening'' q \<longrightarrow>
      extract_time_context q = None) \<and>
   (h \<in> {''6pm'', ''7pm'', ''8pm'', ''9pm''} \<and> (pre = [] \<or> \<not> is_word (last pre)) \<and>
    (post = [] \<or> \<not> is_word (hd post)) \<longrightarrow> mentions ''evening'' (pre @ h @ post)) \<and>
   ((pre = [] \<or> \<not> is_word (last pre)) \<and> (post = [] \<or> \<not> is_word (hd post)) \<longrightarrow>
      mentions ''afternoon'' (pre @ ''12pm'' @ post))"
  using evening_hours [of h pre post] noon_hour [of pre post]
  by (simp add: extract_time_context_cases)

theorem first_period_table_wins_witness:
  "\<not> mentions ''morning'' ''meet at 8pm'' \<and> \<not> mentions ''afternoon'' ''meet at 8pm'' \<and>
   mentions ''evening'' ''meet at 8pm'' \<and>
   extract_time_context ''meet at 8pm'' = Some ''evening''"
proof -
  have h1: "\<not> mentions ''morning'' ''meet at 8pm''" by code_simp
  have h2: "\<not> mentions ''afternoon'' ''meet at 8pm''" by code_simp
  have h3: "\<not> is_word (last ''meet at '')" by (simp add: is_word_def)
  have e: "''meet at '' @ ''8pm'' @ [] = ''meet at 8pm''" by simp
  from first_period_table_wins [of "''meet at 8pm''" "''8pm''" "''meet at ''" "[]"] h1 h2 h3
  show ?thesis unfolding e by simp
qed

end
